theory Spec2Isabelle
  imports Complex_Main
begin

section \<open>JavaScript helpers used by the sources\<close>

text \<open>
  \<open>xs[i]\<close> in JavaScript is \<open>undefined\<close> outside the array; the model reads an
  array through an option, with \<open>None\<close> for \<open>undefined\<close>.
\<close>

definition jsAt :: "'a list \<Rightarrow> int \<Rightarrow> 'a option" where
  "jsAt xs i = (if 0 \<le> i \<and> i < int (length xs) then Some (xs ! nat i) else None)"

text \<open>\<open>Array.prototype.indexOf\<close>: the first position of the element, or \<open>-1\<close>.\<close>

fun indexOf :: "'a list \<Rightarrow> 'a \<Rightarrow> int" where
  "indexOf [] x = -1"
| "indexOf (y # ys) x =
     (if y = x then 0 else (let i = indexOf ys x in if i = -1 then -1 else i + 1))"

text \<open>
  The remainder operator \<open>%\<close> on integers: the result has the sign of the dividend
  (\<open>-1 % 12\<close> is \<open>-1\<close>).
\<close>

definition jsRem :: "int \<Rightarrow> int \<Rightarrow> int" where
  "jsRem a b = sgn a * (\<bar>a\<bar> mod \<bar>b\<bar>)"

text \<open>
  \<open>Array.from(new Set(xs))\<close>: the distinct elements, each at its first occurrence.
\<close>

fun uniq :: "'a list \<Rightarrow> 'a list" where
  "uniq [] = []"
| "uniq (x # xs) = x # filter (\<lambda>y. y \<noteq> x) (uniq xs)"

section \<open>constants: note names and chord templates\<close>

definition NOTE_NAMES :: "string list" where
  "NOTE_NAMES = [''C'', ''C#'', ''D'', ''D#'', ''E'', ''F'', ''F#'', ''G'', ''G#'', ''A'', ''A#'', ''B'']"

record ChordDefinition =
  name :: string
  intervals :: "int list"
  suffix :: string

definition CHORD_TYPES :: "ChordDefinition list" where
  "CHORD_TYPES =
    [\<lparr>name = ''Major'', intervals = [0, 4, 7], suffix = ''''\<rparr>,
     \<lparr>name = ''Minor'', intervals = [0, 3, 7], suffix = ''m''\<rparr>,
     \<lparr>name = ''Major 7th'', intervals = [0, 4, 7, 11], suffix = ''Maj7''\<rparr>,
     \<lparr>name = ''Minor 7th'', intervals = [0, 3, 7, 10], suffix = ''m7''\<rparr>,
     \<lparr>name = ''Dominant 7th'', intervals = [0, 4, 7, 10], suffix = ''7''\<rparr>,
     \<lparr>name = ''Suspended 4th'', intervals = [0, 5, 7], suffix = ''sus4''\<rparr>,
     \<lparr>name = ''Suspended 2nd'', intervals = [0, 2, 7], suffix = ''sus2''\<rparr>,
     \<lparr>name = ''Diminished'', intervals = [0, 3, 6], suffix = ''dim''\<rparr>,
     \<lparr>name = ''Augmented'', intervals = [0, 4, 8], suffix = ''aug''\<rparr>,
     \<lparr>name = ''Power Chord'', intervals = [0, 7], suffix = ''5''\<rparr>]"

section \<open>identifyChord\<close>

text \<open>
  The value \<open>identifyChord\<close> returns. \<open>NOTE_NAMES[root]\<close> is \<open>undefined\<close> when
  \<open>root\<close> is \<open>-1\<close> (a name that is not in the table), so \<open>root\<close> and the members of
  \<open>notes\<close> (here \<open>chordNotes\<close>) are options; the template string of \<open>name\<close> prints \<open>undefined\<close> as text.
\<close>

record ChordMatch =
  chordName :: string
  root :: "string option"
  chordType :: string
  chordNotes :: "string option list"

definition isDigit :: "char \<Rightarrow> bool" where
  "isDigit c = (c \<in> set ''0123456789'')"

text \<open>\<open>n.split(/\d/)[0]\<close>: the part of the name before its first digit.\<close>

definition stripOctave :: "string \<Rightarrow> string" where
  "stripOctave n = takeWhile (\<lambda>c. \<not> isDigit c) n"

definition noteIndex :: "string \<Rightarrow> int" where
  "noteIndex n = indexOf NOTE_NAMES (stripOctave n)"

definition showName :: "string option \<Rightarrow> string" where
  "showName x = (case x of None \<Rightarrow> ''undefined'' | Some s \<Rightarrow> s)"

definition relativeIntervals :: "int list \<Rightarrow> int \<Rightarrow> int list" where
  "relativeIntervals noteIndices r = sort (map (\<lambda>idx. jsRem (idx - r + 12) 12) noteIndices)"

definition isMatch :: "int list \<Rightarrow> ChordDefinition \<Rightarrow> bool" where
  "isMatch rel t = list_all (\<lambda>i. i \<in> set rel) (intervals t)"

definition chordAt :: "int \<Rightarrow> ChordDefinition \<Rightarrow> ChordMatch" where
  "chordAt r t =
     \<lparr>chordName = showName (jsAt NOTE_NAMES r) @ suffix t,
      root = jsAt NOTE_NAMES r,
      chordType = name t,
      chordNotes = map (\<lambda>i. jsAt NOTE_NAMES (jsRem (r + i) 12)) (intervals t)\<rparr>"

text \<open>
  The outer loop over \<open>rootIdx\<close>: the first argument is the whole of \<open>noteIndices\<close>,
  the second the roots still to be tried, in order. The inner loop over \<open>CHORD_TYPES\<close>
  returns at the first template that matches.
\<close>

fun tryRoots :: "int list \<Rightarrow> int list \<Rightarrow> ChordMatch option" where
  "tryRoots noteIndices [] = None"
| "tryRoots noteIndices (r # rest) =
     (case find (isMatch (relativeIntervals noteIndices r)) CHORD_TYPES of
        Some t \<Rightarrow> Some (chordAt r t)
      | None \<Rightarrow> tryRoots noteIndices rest)"

definition identifyChord :: "string list \<Rightarrow> ChordMatch option" where
  "identifyChord ns =
     (if length ns < 2 then None
      else (let noteIndices = sort (uniq (map noteIndex ns))
            in tryRoots noteIndices noteIndices))"

section \<open>getNoteFromFrequency\<close>

text \<open>
  The numbers \<open>octave\<close> and \<open>noteNum\<close> of the result: an integer, or one of the two
  special values the function can produce. \<open>Math.log\<close> is \<open>-Infinity\<close> at 0 and
  \<open>NaN\<close> below 0, and the arithmetic that follows keeps them: \<open>12 * (-Infinity /
  Math.log(2))\<close>, \<open>Math.round(-Infinity) + 69\<close> and \<open>Math.floor(-Infinity / 12) - 1\<close>
  are \<open>-Infinity\<close>, \<open>-Infinity % 12\<close> is \<open>NaN\<close>, every operation on \<open>NaN\<close> is
  \<open>NaN\<close>, and \<open>NOTE_NAMES[NaN]\<close> is \<open>undefined\<close>. Finite numbers are exact reals
  here, not doubles.
\<close>

datatype JSNumber = Num int | NegInfinity | NaN

record NoteInfo =
  pitchName :: "string option"
  octave :: JSNumber
  noteNum :: JSNumber

text \<open>
  The function has no test of its argument, no \<open>throw\<close> and no early return: it
  returns an object for every frequency. \<open>Math.round\<close> rounds halves up, as
  \<^const>\<open>round\<close> does; \<open>Math.floor(roundedNote / 12)\<close> is the floor division
  \<open>div\<close>.
\<close>

definition getNoteFromFrequency :: "real \<Rightarrow> NoteInfo" where
  "getNoteFromFrequency f =
     (if f / 440 > 0
      then (let noteNum = 12 * (ln (f / 440) / ln 2);
                roundedNote = round noteNum + 69
            in \<lparr>pitchName = jsAt NOTE_NAMES (jsRem roundedNote 12),
                octave = Num (roundedNote div 12 - 1),
                noteNum = Num roundedNote\<rparr>)
      else if f / 440 = 0
      then \<lparr>pitchName = None, octave = NegInfinity, noteNum = NegInfinity\<rparr>
      else \<lparr>pitchName = None, octave = NaN, noteNum = NaN\<rparr>)"

section \<open>autoCorrelate\<close>

text \<open>
  A frame is the list of its samples, as exact reals. \<open>correlation buf\<close> is the
  content of \<open>correlationBuffer\<close> after the two nested loops: the sums below
  \<open>maxOffset\<close>, zero above (the buffer is cleared first). The buffer has 2048 places
  and \<open>maxOffset\<close> is \<open>SIZE / 2\<close>, so the model is of frames of even length up to 4092
  samples, for which every read is inside the buffer; the analyser's frames have 2048.
\<close>

definition correlation :: "real list \<Rightarrow> nat \<Rightarrow> real" where
  "correlation buf k =
     (let maxOffset = length buf div 2
      in if k < maxOffset then (\<Sum>i\<leftarrow>[0..<maxOffset]. buf ! i * buf ! (i + k)) else 0)"

text \<open>The \<open>while\<close> loop that walks down to the first dip, from \<open>d\<close>.\<close>

function firstDip :: "(nat \<Rightarrow> real) \<Rightarrow> nat \<Rightarrow> nat \<Rightarrow> nat" where
  "firstDip c maxOffset d =
     (if c d > c (d + 1) \<and> d < maxOffset then firstDip c maxOffset (d + 1) else d)"
  by pat_completeness auto
termination
  by (relation "measure (\<lambda>(c, maxOffset, d). maxOffset - d)") auto

declare firstDip.simps [simp del]

text \<open>
  The \<open>for\<close> loop that looks for the highest peak: one step for the index \<open>i\<close> on
  the pair \<open>(maxval, maxpos)\<close>, and the loop over \<open>d .. maxOffset - 1\<close> from
  \<open>(-1, -1)\<close>.
\<close>

definition peakStep :: "(nat \<Rightarrow> real) \<Rightarrow> real \<times> int \<Rightarrow> nat \<Rightarrow> real \<times> int" where
  "peakStep c acc i = (if c i > fst acc then (c i, int i) else acc)"

definition highestPeak :: "(nat \<Rightarrow> real) \<Rightarrow> nat \<Rightarrow> nat \<Rightarrow> real \<times> int" where
  "highestPeak c d maxOffset = foldl (peakStep c) (-1, -1) [d..<maxOffset]"

text \<open>\<open>maxpos\<close>, the lag the two loops select.\<close>

definition peakLag :: "real list \<Rightarrow> int" where
  "peakLag buf =
     (let maxOffset = length buf div 2;
          c = correlation buf;
          d = firstDip c maxOffset 0
      in snd (highestPeak c d maxOffset))"

text \<open>\<open>finalPos\<close>, the lag after the parabolic interpolation around \<open>maxpos\<close>.\<close>

definition refinePeak :: "(nat \<Rightarrow> real) \<Rightarrow> nat \<Rightarrow> int \<Rightarrow> real" where
  "refinePeak c maxOffset maxpos =
     (if maxpos > 0 \<and> maxpos < int maxOffset - 1
      then (let x0 = c (nat (maxpos - 1));
                x1 = c (nat maxpos);
                x2 = c (nat (maxpos + 1));
                a = (x0 + x2 - 2 * x1) / 2;
                b = (x2 - x0) / 2
            in if a \<noteq> 0 then real_of_int maxpos - b / (2 * a) else real_of_int maxpos)
      else real_of_int maxpos)"

definition finalLag :: "real list \<Rightarrow> real" where
  "finalLag buf = refinePeak (correlation buf) (length buf div 2) (peakLag buf)"

text \<open>The result is a frequency, or the sentinel \<open>-1\<close> for no pitch.\<close>

definition autoCorrelate :: "real list \<Rightarrow> real \<Rightarrow> real" where
  "autoCorrelate buf sampleRate =
     (let SIZE = length buf;
          rms = sqrt ((\<Sum>x\<leftarrow>buf. x * x) / real SIZE)
      in if rms < 0.005 then -1
         else (let maxpos = peakLag buf
               in if maxpos = -1 \<or> maxpos = 0 then -1
                  else sampleRate / finalLag buf))"

section \<open>detectPitch: the update closure\<close>

record NoteData =
  noteLabel :: string
  frequency :: real
  confidence :: real
  timestamp :: int

text \<open>
  The template string \<open>`${name}${octave}`\<close>: an \<open>undefined\<close> name and the special
  numbers print as text.
\<close>

fun showNat :: "nat \<Rightarrow> string" where
  "showNat n =
     (if n < 10 then [''0123456789'' ! n]
      else showNat (n div 10) @ [''0123456789'' ! (n mod 10)])"

declare showNat.simps [simp del]

fun showNumber :: "JSNumber \<Rightarrow> string" where
  "showNumber (Num i) = (if i < 0 then ''-'' @ showNat (nat (- i)) else showNat (nat i))"
| "showNumber NegInfinity = ''-Infinity''"
| "showNumber NaN = ''NaN''"

definition labelOf :: "NoteInfo \<Rightarrow> string" where
  "labelOf info = showName (pitchName info) @ showNumber (octave info)"

text \<open>
  The updater given to \<open>setCurrentNote\<close>, for the candidate label and frequency at
  time \<open>now\<close>: the previous value is kept when it has the same label and a frequency
  less than 1 Hz away; otherwise a new value is made.
\<close>

definition setCurrentNote :: "NoteData option \<Rightarrow> string \<Rightarrow> real \<Rightarrow> int \<Rightarrow> NoteData option" where
  "setCurrentNote prev label freq now =
     (case prev of
        Some p \<Rightarrow>
          if noteLabel p = label \<and> \<bar>frequency p - freq\<bar> < 1 then prev
          else Some \<lparr>noteLabel = label, frequency = freq, confidence = 0.9, timestamp = now\<rparr>
      | None \<Rightarrow> Some \<lparr>noteLabel = label, frequency = freq, confidence = 0.9, timestamp = now\<rparr>)"

text \<open>The updater given to \<open>setDetectedNotes\<close>; the set keeps its insertion order.\<close>

definition setDetectedNotes :: "string option list \<Rightarrow> string option \<Rightarrow> string option list" where
  "setDetectedNotes prev nm = (if nm \<in> set prev then prev else prev @ [nm])"

record Detector =
  currentNote :: "NoteData option"
  detectedNotes :: "string option list"

text \<open>
  One animation frame of \<open>update\<close>, for the frequency \<open>autoCorrelate\<close> returned: the
  frame is used only when the frequency is not the sentinel and lies strictly between
  20 and 4000 Hz.
\<close>

definition detectPitchUpdate :: "Detector \<Rightarrow> real \<Rightarrow> int \<Rightarrow> Detector" where
  "detectPitchUpdate st freq now =
     (if freq \<noteq> -1 \<and> freq > 20 \<and> freq < 4000
      then (let info = getNoteFromFrequency freq
            in st\<lparr>currentNote := setCurrentNote (currentNote st) (labelOf info) freq now,
                  detectedNotes := setDetectedNotes (detectedNotes st) (pitchName info)\<rparr>)
      else st)"

text \<open>
  A stream of candidates (label, frequency, time) through \<open>setCurrentNote\<close>: the
  number of candidates for which the updater made a new value, a note event.
\<close>

fun countEvents :: "NoteData option \<Rightarrow> (string \<times> real \<times> int) list \<Rightarrow> nat" where
  "countEvents prev [] = 0"
| "countEvents prev ((label, freq, now) # rest) =
     (let next = setCurrentNote prev label freq now
      in (if next = prev then 0 else 1) + countEvents next rest)"

text \<open>
  A stream that alternates between two candidates, one per time stamp, starting with
  the first.
\<close>

fun alternating :: "string \<times> real \<Rightarrow> string \<times> real \<Rightarrow> int list \<Rightarrow> (string \<times> real \<times> int) list" where
  "alternating x y [] = []"
| "alternating x y (t # ts) = (fst x, snd x, t) # alternating y x ts"

section \<open>SpeedTrainer: state\<close>

datatype TrainingState = Idle | Learning | Locked | Training

datatype ComplexityMode = Simple | Balanced | Complex

text \<open>\<open>COMPLEXITY_CONFIG[mode].min\<close> and \<open>.max\<close>.\<close>

fun configMin :: "ComplexityMode \<Rightarrow> nat" where
  "configMin Simple = 2"
| "configMin Balanced = 3"
| "configMin Complex = 4"

fun configMax :: "ComplexityMode \<Rightarrow> nat" where
  "configMax Simple = 4"
| "configMax Balanced = 6"
| "configMax Complex = 10"

datatype HitType = Perfect | Good | Fair | Miss | NoHit

record Feedback =
  msg :: string
  color :: string
  offset :: "real option"
  hitType :: HitType
  fbTimestamp :: int

text \<open>
  The component's state: the \<open>useState\<close> values, the two refs the handlers read
  (\<open>hasPlayedOnThisBeatRef\<close>, \<open>currentPatternProgressRef\<close>) and what the handlers
  use of Tone: the transport's tempo \<open>Tone.Transport.bpm.value\<close>, whether the transport
  runs, and the metronome loop. \<open>streakRef\<close> is copied from \<open>streak\<close> after every
  render, so the model reads \<open>streak\<close> for it. The callback of the loop is a closure
  made inside \<open>ensureAudioInit\<close>; \<open>loopRef\<close> holds the value of \<open>trainingState\<close>
  that closure captured (\<open>None\<close> when \<open>loopRef.current\<close> is null). Times are
  \<open>Date.now()\<close> milliseconds; the other numbers are reals.
\<close>

record Trainer =
  isActive :: bool
  isMetronomeAudioEnabled :: bool
  trainingState :: TrainingState
  complexity :: ComplexityMode
  noteHistory :: "string list"
  learnedPattern :: "string list"
  patternMatches :: nat
  startBpm :: real
  bpm :: real
  targetBpm :: real
  increment :: real
  streak :: nat
  bestStreak :: nat
  currentBeat :: nat
  lastBeatTime :: int
  feedback :: "Feedback option"
  hasPlayedOnThisBeat :: bool
  currentPatternProgress :: nat
  transportBpm :: real
  transportStarted :: bool
  loopRef :: "TrainingState option"

text \<open>The state of a freshly mounted component; Tone's transport starts at 120 BPM.\<close>

definition initialTrainer :: Trainer where
  "initialTrainer =
     \<lparr>isActive = False, isMetronomeAudioEnabled = False, trainingState = Idle,
      complexity = Balanced, noteHistory = [], learnedPattern = [], patternMatches = 0,
      startBpm = 80, bpm = 80, targetBpm = 140, increment = 5, streak = 0, bestStreak = 0,
      currentBeat = 0, lastBeatTime = 0, feedback = None, hasPlayedOnThisBeat = False,
      currentPatternProgress = 0, transportBpm = 120, transportStarted = False,
      loopRef = None\<rparr>"

section \<open>SpeedTrainer: the handlers\<close>

text \<open>
  \<open>xs.slice(a, b)\<close> with negative indices counting from the end, and \<open>xs.slice(a)\<close>.
\<close>

definition jsSlice :: "'a list \<Rightarrow> int \<Rightarrow> int \<Rightarrow> 'a list" where
  "jsSlice xs a b =
     (let n = int (length xs);
          from = (if a < 0 then max (n + a) 0 else min a n);
          to = (if b < 0 then max (n + b) 0 else min b n)
      in take (nat (to - from)) (drop (nat from) xs))"

definition jsSliceFrom :: "'a list \<Rightarrow> int \<Rightarrow> 'a list" where
  "jsSliceFrom xs a = jsSlice xs a (int (length xs))"

definition stopAllAudio :: "Trainer \<Rightarrow> Trainer" where
  "stopAllAudio s =
     s\<lparr>transportStarted := False, loopRef := None, currentBeat := 0, isActive := False,
       isMetronomeAudioEnabled := False, trainingState := Idle, learnedPattern := [],
       patternMatches := 0, noteHistory := [], feedback := None\<rparr>"

definition startLearning :: "Trainer \<Rightarrow> Trainer" where
  "startLearning s =
     s\<lparr>trainingState := Learning, isActive := True, learnedPattern := [],
       patternMatches := 0, streak := 0, bpm := startBpm s\<rparr>"

text \<open>
  \<open>ensureAudioInit\<close>, called from a closure whose \<open>trainingState\<close> and \<open>bpm\<close> are
  \<open>st\<close> and \<open>b\<close>: when the transport is not running it makes the loop (if there is
  none), sets the transport's tempo and starts it.
\<close>

definition ensureAudioInit :: "TrainingState \<Rightarrow> real \<Rightarrow> Trainer \<Rightarrow> Trainer" where
  "ensureAudioInit st b s =
     (if transportStarted s then s
      else s\<lparr>loopRef := (case loopRef s of None \<Rightarrow> Some st | Some c \<Rightarrow> Some c),
             transportBpm := b, transportStarted := True\<rparr>)"

text \<open>
  The callback of the metronome loop, once per quarter note. Its test of
  \<open>trainingState\<close> reads the value the closure captured.
\<close>

definition beatTick :: "Trainer \<Rightarrow> int \<Rightarrow> Trainer" where
  "beatTick s now =
     (case loopRef s of
        None \<Rightarrow> s
      | Some captured \<Rightarrow>
          (let s1 = s\<lparr>currentBeat := (currentBeat s + 1) mod 4, lastBeatTime := now\<rparr>;
               s2 = (if captured = Training \<and> \<not> hasPlayedOnThisBeat s \<and> streak s > 0
                     then s1\<lparr>streak := 0,
                             feedback := Some \<lparr>msg = ''Missed Beat!'', color = ''text-red-500'',
                               offset = Some 0, hitType = Miss, fbTimestamp = now\<rparr>\<rparr>
                     else s1)
           in s2\<lparr>hasPlayedOnThisBeat := False\<rparr>))"

text \<open>
  The learning phase: the new note is appended to the history, cut to the last 20, and
  the lengths \<open>min .. max\<close> are scanned upwards for a sequence that repeats itself at
  the end of the history.
\<close>

definition repeatsAt :: "string list \<Rightarrow> nat \<Rightarrow> bool" where
  "repeatsAt next len =
     (\<not> length next < len * 2
      \<and> jsSliceFrom next (- int len) = jsSlice next (- int len * 2) (- int len))"

definition learningPhase :: "Trainer \<Rightarrow> string \<Rightarrow> int \<Rightarrow> Trainer" where
  "learningPhase s activeNote now =
     (let next = jsSliceFrom (noteHistory s @ [activeNote]) (-20) in
      case find (repeatsAt next) [configMin (complexity s) ..< Suc (configMax (complexity s))] of
        Some len \<Rightarrow>
          s\<lparr>learnedPattern := jsSliceFrom next (- int len),
            patternMatches := 1,
            trainingState := Locked,
            feedback := Some \<lparr>msg = showNat len @ ''-Note Lick Found! Confirm 5 times.'',
              color = ''text-blue-400'', offset = None, hitType = Good, fbTimestamp = now\<rparr>,
            noteHistory := []\<rparr>
      | None \<Rightarrow> s\<lparr>noteHistory := next\<rparr>)"

text \<open>
  The locked phase: the note at the cursor advances it by one, the note one place ahead
  by two, any other note is ignored; at the end of the pattern the cursor wraps and the
  match counter goes up, and at 5 the trainer enters training.
\<close>

definition confirmCycle :: "Trainer \<Rightarrow> int \<Rightarrow> Trainer" where
  "confirmCycle s now =
     (let next = patternMatches s + 1
      in if next \<ge> 5
         then (ensureAudioInit (trainingState s) (bpm s)
                 (s\<lparr>trainingState := Training, isMetronomeAudioEnabled := True\<rparr>))
              \<lparr>feedback := Some \<lparr>msg = ''READY... GO!'', color = ''text-emerald-400'',
                 offset = None, hitType = Perfect, fbTimestamp = now\<rparr>,
               patternMatches := next\<rparr>
         else s\<lparr>patternMatches := next\<rparr>)"

definition lockedWrap :: "Trainer \<Rightarrow> int \<Rightarrow> Trainer" where
  "lockedWrap s now =
     (if currentPatternProgress s \<ge> length (learnedPattern s)
      then confirmCycle (s\<lparr>currentPatternProgress := 0\<rparr>) now
      else s)"

definition lockedPhase :: "Trainer \<Rightarrow> string \<Rightarrow> int \<Rightarrow> Trainer" where
  "lockedPhase s activeNote now =
     (let cur = currentPatternProgress s;
          expectedNote = jsAt (learnedPattern s) (int cur)
      in if Some activeNote = expectedNote
         then lockedWrap (s\<lparr>currentPatternProgress := cur + 1\<rparr>) now
         else if cur + 1 < length (learnedPattern s)
                 \<and> Some activeNote = jsAt (learnedPattern s) (int cur + 1)
         then lockedWrap (s\<lparr>currentPatternProgress := cur + 2\<rparr>) now
         else s)"

text \<open>
  The training phase. \<open>timingFeedback\<close> is the precision band of an accepted hit
  (\<open>msg\<close>, \<open>color\<close>, \<open>hitType\<close> with the offset and the time).
\<close>

definition timingFeedback :: "real \<Rightarrow> real \<Rightarrow> real \<Rightarrow> int \<Rightarrow> Feedback" where
  "timingFeedback period diff normalizedOffset now =
     (let absDiff = \<bar>diff\<bar> in
      if absDiff > period * 0.15
      then \<lparr>msg = (if diff > 0 then ''Late'' else ''Early''), color = ''text-amber-500'',
            offset = Some normalizedOffset, hitType = Fair, fbTimestamp = now\<rparr>
      else if absDiff > period * 0.05
      then \<lparr>msg = (if diff > 0 then ''Slightly Late'' else ''Slightly Early''),
            color = ''text-blue-400'', offset = Some normalizedOffset, hitType = Good,
            fbTimestamp = now\<rparr>
      else \<lparr>msg = ''Perfect!'', color = ''text-emerald-400'', offset = Some normalizedOffset,
            hitType = Perfect, fbTimestamp = now\<rparr>)"

definition trainingPhase :: "Trainer \<Rightarrow> string \<Rightarrow> int \<Rightarrow> Trainer" where
  "trainingPhase s activeNote now =
     (let currentBpm = transportBpm s;
          period = 60000 / currentBpm;
          timeSinceLastBeat = real_of_int (now - lastBeatTime s);
          tolerance = period * 0.4;
          diff = (if timeSinceLastBeat > period / 2 then timeSinceLastBeat - period
                  else timeSinceLastBeat);
          normalizedOffset = diff / (period / 2);
          isValidTime = (\<bar>diff\<bar> < tolerance);
          expectedNote = jsAt (learnedPattern s) (int (currentPatternProgress s))
      in if Some activeNote = expectedNote \<and> isValidTime \<and> \<not> hasPlayedOnThisBeat s
         then (let progress = currentPatternProgress s + 1;
                   s1 = s\<lparr>hasPlayedOnThisBeat := True, currentPatternProgress := progress\<rparr>;
                   fb = timingFeedback period diff normalizedOffset now
               in if progress = 0
                  then (let next = streak s + 1;
                            s2 = (if next > bestStreak s then s1\<lparr>bestStreak := next\<rparr> else s1)
                        in if next mod 3 = 0
                           then s2\<lparr>bpm := min (bpm s + increment s) (targetBpm s),
                                  feedback := Some \<lparr>msg = ''LEVEL UP!'',
                                    color = ''text-emerald-400'', offset = Some normalizedOffset,
                                    hitType = Perfect, fbTimestamp = now\<rparr>,
                                  streak := next\<rparr>
                           else s2\<lparr>feedback := Some fb, streak := next\<rparr>)
                  else s1\<lparr>feedback := Some fb\<rparr>)
         else s)"

text \<open>
  The body of the listening effect, run for the current \<open>activeNote\<close> at time
  \<open>now\<close>. React runs it after every render in which \<open>activeNote\<close>,
  \<open>trainingState\<close>, \<open>lastBeatTime\<close> or \<open>complexity\<close> changed; each run is one
  call of \<open>noteEffect\<close>.
\<close>

definition noteEffect :: "Trainer \<Rightarrow> string option \<Rightarrow> int \<Rightarrow> Trainer" where
  "noteEffect s activeNote now =
     (case activeNote of
        None \<Rightarrow> s
      | Some n \<Rightarrow>
          (if n = [] then s
           else (case trainingState s of
                   Idle \<Rightarrow> s
                 | Learning \<Rightarrow> learningPhase s n now
                 | Locked \<Rightarrow> lockedPhase s n now
                 | Training \<Rightarrow> trainingPhase s n now)))"

text \<open>
  A session as a list of events, applied in order: a run of the listening effect for a
  note at a time, a tick of the metronome loop at a time, and a click on the one button
  of the component, which starts learning when the trainer is idle and resets it
  otherwise.
\<close>

datatype Event = Note string int | Tick int | Click

fun applyEvent :: "Trainer \<Rightarrow> Event \<Rightarrow> Trainer" where
  "applyEvent s (Note n t) = noteEffect s (Some n) t"
| "applyEvent s (Tick t) = beatTick s t"
| "applyEvent s Click = (if trainingState s = Idle then startLearning s else stopAllAudio s)"

definition runEvents :: "Trainer \<Rightarrow> Event list \<Rightarrow> Trainer" where
  "runEvents s evs = foldl applyEvent s evs"

section \<open>SpeedTrainer: sessions\<close>

text \<open>
  Inputs for the scenarios below: a list of notes all heard at one time, a list of notes
  played exactly on successive metronome ticks (tick at \<open>t\<close>, note at \<open>t\<close>, then the
  same one period later), the lick E F G, and a trainer in complexity mode simple.
\<close>

definition playNotes :: "string list \<Rightarrow> int \<Rightarrow> Event list" where
  "playNotes ns t = map (\<lambda>n. Note n t) ns"

fun onBeat :: "int \<Rightarrow> int \<Rightarrow> string list \<Rightarrow> Event list" where
  "onBeat t p [] = []"
| "onBeat t p (n # ns) = Tick t # Note n t # onBeat (t + p) p ns"

definition lick :: "string list" where
  "lick = [''E'', ''F'', ''G'']"

definition simpleTrainer :: Trainer where
  "simpleTrainer = initialTrainer\<lparr>complexity := Simple\<rparr>"

text \<open>
  The trainer after the start button and six times the lick: the lick is found on the
  second repetition and confirmed four more times, which starts the training phase at
  80 BPM (one beat every 750 ms).
\<close>

definition trainingStart :: Trainer where
  "trainingStart =
     runEvents (startLearning simpleTrainer) (playNotes (lick @ lick @ lick @ lick @ lick @ lick) 0)"

text \<open>The trainer after the start button, twice the lick and one more E.\<close>

definition lockedMid :: Trainer where
  "lockedMid = runEvents (startLearning simpleTrainer) (playNotes (lick @ lick @ [''E'']) 0)"

section \<open>The invariant of the peak loop\<close>

text \<open>
  What the peak loop keeps true of \<open>(maxval, maxpos)\<close> over the range \<open>d .. m - 1\<close>:
  nothing above \<open>-1\<close> was seen, or \<open>maxpos\<close> is the first place of the largest value.
\<close>

definition peakInv :: "(nat \<Rightarrow> real) \<Rightarrow> nat \<Rightarrow> nat \<Rightarrow> real \<times> int \<Rightarrow> bool" where
  "peakInv c d m acc =
     ((snd acc = -1 \<and> fst acc = -1 \<and> (\<forall>i. d \<le> i \<and> i < m \<longrightarrow> c i \<le> -1))
      \<or> (int d \<le> snd acc \<and> snd acc < int m \<and> fst acc = c (nat (snd acc))
         \<and> (\<forall>i. d \<le> i \<and> i < m \<longrightarrow> c i \<le> fst acc)
         \<and> (\<forall>i. d \<le> i \<and> i < nat (snd acc) \<longrightarrow> c i < fst acc)))"

section \<open>Chord matcher on the reference inputs\<close>

lemmas chord_eval =
  identifyChord_def noteIndex_def stripOctave_def isDigit_def NOTE_NAMES_def CHORD_TYPES_def
  relativeIntervals_def isMatch_def chordAt_def jsAt_def jsRem_def showName_def

text \<open>
  C7. For the notes C, E, G the matcher returns root C with type Major, and with A
  added (C, E, G, A) it still returns root C with type Major: root C is tried first and
  Major is the first template, whose intervals 0, 4, 7 are all among the played ones.
\<close>

theorem identifyChord_reference:
  "identifyChord [''C'', ''E'', ''G''] =
     Some \<lparr>chordName = ''C'', root = Some ''C'', chordType = ''Major'',
           chordNotes = [Some ''C'', Some ''E'', Some ''G'']\<rparr>
   \<and> identifyChord [''C'', ''E'', ''G'', ''A''] =
     Some \<lparr>chordName = ''C'', root = Some ''C'', chordType = ''Major'',
           chordNotes = [Some ''C'', Some ''E'', Some ''G'']\<rparr>"
  by (simp add: chord_eval)

section \<open>The trainer: learning, locking, training\<close>

lemma runEvents_append: "runEvents s (xs @ ys) = runEvents (runEvents s xs) ys"
  by (simp add: runEvents_def)

lemma playNotes_append: "playNotes (xs @ ys) t = playNotes xs t @ playNotes ys t"
  by (simp add: playNotes_def)

text \<open>
  In mode simple, on an empty history, the lick is not found after five notes and is
  found at the sixth: the history is cleared, the counter is 1 and the trainer is locked.
\<close>

lemma learn_lick:
  assumes "trainingState s = Learning" and "complexity s = Simple" and "noteHistory s = []"
  shows "trainingState (runEvents s (playNotes [''E'', ''F'', ''G'', ''E'', ''F''] t)) = Learning"
    and "runEvents s (playNotes (lick @ lick) t) =
      s\<lparr>learnedPattern := lick, patternMatches := 1, trainingState := Locked,
        feedback := Some \<lparr>msg = ''3-Note Lick Found! Confirm 5 times.'',
              color = ''text-blue-400'', offset = None, hitType = Good, fbTimestamp = t\<rparr>,
        noteHistory := []\<rparr>"
  using assms
  by (simp_all add: playNotes_def lick_def runEvents_def noteEffect_def learningPhase_def
      repeatsAt_def jsSlice_def jsSliceFrom_def upt_rec showNat.simps)

text \<open>
  One more time through the lick in the locked phase: the cursor is back at 0, the
  counter is one higher, and at 5 the trainer is in training.
\<close>

lemma locked_cycle:
  assumes "trainingState s = Locked" and "learnedPattern s = lick"
    and "currentPatternProgress s = 0" and "patternMatches s = m"
  shows "learnedPattern (runEvents s (playNotes lick t)) = lick
       \<and> currentPatternProgress (runEvents s (playNotes lick t)) = 0
       \<and> patternMatches (runEvents s (playNotes lick t)) = m + 1
       \<and> trainingState (runEvents s (playNotes lick t)) = (if m + 1 \<ge> 5 then Training else Locked)"
  using assms
  by (simp add: playNotes_def lick_def runEvents_def noteEffect_def lockedPhase_def
      lockedWrap_def jsAt_def confirmCycle_def ensureAudioInit_def)

text \<open>
  C4, as the code has it. From the learning state in mode simple (empty history, cursor
  at 0), the notes E F G E F G E F G E F G are fed in order. After five notes the
  trainer is still learning; the sixth note, which completes the second repetition,
  gives the learned pattern E F G, the match counter 1, a cleared history and the state
  locked. The effect run again for the same note G leaves the locked state as it is.
  The twelve notes end in the locked state with the counter at 3. The counter counts
  the detection as the first of its five, so four full cycles in the locked state enter
  training: after three the trainer is still locked (counter 4), after the fourth it is
  in training (counter 5).
\<close>

theorem learn_lock_train:
  assumes "trainingState s = Learning" and "complexity s = Simple" and "noteHistory s = []"
    and "currentPatternProgress s = 0"
  shows "trainingState (runEvents s (playNotes [''E'', ''F'', ''G'', ''E'', ''F''] t)) = Learning
       \<and> trainingState (runEvents s (playNotes (lick @ lick) t)) = Locked
       \<and> learnedPattern (runEvents s (playNotes (lick @ lick) t)) = [''E'', ''F'', ''G'']
       \<and> patternMatches (runEvents s (playNotes (lick @ lick) t)) = 1
       \<and> noteHistory (runEvents s (playNotes (lick @ lick) t)) = []
       \<and> noteEffect (runEvents s (playNotes (lick @ lick) t)) (Some ''G'') t
           = runEvents s (playNotes (lick @ lick) t)
       \<and> trainingState (runEvents s (playNotes (lick @ lick @ lick @ lick) t)) = Locked
       \<and> patternMatches (runEvents s (playNotes (lick @ lick @ lick @ lick) t)) = 3
       \<and> trainingState (runEvents s (playNotes (lick @ lick @ lick @ lick @ lick) t)) = Locked
       \<and> patternMatches (runEvents s (playNotes (lick @ lick @ lick @ lick @ lick) t)) = 4
       \<and> trainingState (runEvents s (playNotes (lick @ lick @ lick @ lick @ lick @ lick) t)) = Training
       \<and> patternMatches (runEvents s (playNotes (lick @ lick @ lick @ lick @ lick @ lick) t)) = 5"
proof -
  define s1 where "s1 = runEvents s (playNotes (lick @ lick) t)"
  define s2 where "s2 = runEvents s1 (playNotes lick t)"
  define s3 where "s3 = runEvents s2 (playNotes lick t)"
  define s4 where "s4 = runEvents s3 (playNotes lick t)"
  define s5 where "s5 = runEvents s4 (playNotes lick t)"
  have e1: "s1 = s\<lparr>learnedPattern := lick, patternMatches := 1, trainingState := Locked,
        feedback := Some \<lparr>msg = ''3-Note Lick Found! Confirm 5 times.'',
              color = ''text-blue-400'', offset = None, hitType = Good, fbTimestamp = t\<rparr>,
        noteHistory := []\<rparr>"
    unfolding s1_def using assms(1-3) by (rule learn_lick(2))
  have p1: "trainingState s1 = Locked" "learnedPattern s1 = lick" "currentPatternProgress s1 = 0"
    "patternMatches s1 = 1" "noteHistory s1 = []"
    using assms(4) by (simp_all add: e1)
  have p2: "learnedPattern s2 = lick \<and> currentPatternProgress s2 = 0 \<and> patternMatches s2 = 1 + 1
      \<and> trainingState s2 = (if (1::nat) + 1 \<ge> 5 then Training else Locked)"
    unfolding s2_def using p1(1-4) by (rule locked_cycle)
  then have q2: "trainingState s2 = Locked" "learnedPattern s2 = lick"
    "currentPatternProgress s2 = 0" "patternMatches s2 = 2" by simp_all
  have p3: "learnedPattern s3 = lick \<and> currentPatternProgress s3 = 0 \<and> patternMatches s3 = 2 + 1
      \<and> trainingState s3 = (if (2::nat) + 1 \<ge> 5 then Training else Locked)"
    unfolding s3_def using q2 by (rule locked_cycle)
  then have q3: "trainingState s3 = Locked" "learnedPattern s3 = lick"
    "currentPatternProgress s3 = 0" "patternMatches s3 = 3" by simp_all
  have p4: "learnedPattern s4 = lick \<and> currentPatternProgress s4 = 0 \<and> patternMatches s4 = 3 + 1
      \<and> trainingState s4 = (if (3::nat) + 1 \<ge> 5 then Training else Locked)"
    unfolding s4_def using q3 by (rule locked_cycle)
  then have q4: "trainingState s4 = Locked" "learnedPattern s4 = lick"
    "currentPatternProgress s4 = 0" "patternMatches s4 = 4" by simp_all
  have p5: "learnedPattern s5 = lick \<and> currentPatternProgress s5 = 0 \<and> patternMatches s5 = 4 + 1
      \<and> trainingState s5 = (if (4::nat) + 1 \<ge> 5 then Training else Locked)"
    unfolding s5_def using q4 by (rule locked_cycle)
  then have q5: "trainingState s5 = Training" "patternMatches s5 = 5" by simp_all
  have r3: "runEvents s (playNotes (lick @ lick @ lick @ lick) t) = s3"
    by (simp add: s3_def s2_def s1_def playNotes_append runEvents_append)
  have r4: "runEvents s (playNotes (lick @ lick @ lick @ lick @ lick) t) = s4"
    by (simp add: s4_def s3_def s2_def s1_def playNotes_append runEvents_append)
  have r5: "runEvents s (playNotes (lick @ lick @ lick @ lick @ lick @ lick) t) = s5"
    by (simp add: s5_def s4_def s3_def s2_def s1_def playNotes_append runEvents_append)
  have l5: "trainingState (runEvents s (playNotes [''E'', ''F'', ''G'', ''E'', ''F''] t)) = Learning"
    using assms(1-3) by (rule learn_lick(1))
  have g: "noteEffect s1 (Some ''G'') t = s1"
    using p1 by (simp add: noteEffect_def lockedPhase_def jsAt_def lick_def)
  show ?thesis
    unfolding r3 r4 r5 s1_def [symmetric] using l5 p1 q3 q4 q5 g by (simp add: lick_def)
qed

text \<open>The trainer after the start button, in mode simple, is such a state.\<close>

theorem learn_lock_train_witness:
  "trainingState (startLearning simpleTrainer) = Learning
   \<and> complexity (startLearning simpleTrainer) = Simple
   \<and> noteHistory (startLearning simpleTrainer) = []
   \<and> currentPatternProgress (startLearning simpleTrainer) = 0
   \<and> trainingState (runEvents (startLearning simpleTrainer)
        (playNotes (lick @ lick @ lick @ lick @ lick @ lick) 0)) = Training"
  using learn_lock_train [of "startLearning simpleTrainer" 0]
  by (simp add: startLearning_def simpleTrainer_def initialTrainer_def)

text \<open>
  A fifth cycle in the locked state does not happen: after the detection and three
  cycles the trainer is locked, after the fourth cycle it has left the locked state.
\<close>

theorem five_locked_cycles_counterexample:
  "trainingState (runEvents (startLearning simpleTrainer)
      (playNotes (lick @ lick) 0 @ playNotes (lick @ lick @ lick) 0)) = Locked
   \<and> trainingState (runEvents (startLearning simpleTrainer)
      (playNotes (lick @ lick) 0 @ playNotes (lick @ lick @ lick @ lick) 0)) \<noteq> Locked"
  by code_simp

section \<open>The trainer: timing of a hit\<close>

lemma trainingStart_eq:
  "trainingStart =
     \<lparr>isActive = True, isMetronomeAudioEnabled = True, trainingState = Training,
      complexity = Simple, noteHistory = [], learnedPattern = [''E'', ''F'', ''G''],
      patternMatches = 5, startBpm = 80, bpm = 80, targetBpm = 140, increment = 5,
      streak = 0, bestStreak = 0, currentBeat = 0, lastBeatTime = 0,
      feedback = Some \<lparr>msg = ''READY... GO!'', color = ''text-emerald-400'', offset = None,
        hitType = Perfect, fbTimestamp = 0\<rparr>,
      hasPlayedOnThisBeat = False, currentPatternProgress = 0, transportBpm = 80,
      transportStarted = True, loopRef = Some Locked\<rparr>"
  by code_simp

text \<open>
  C5. In training at 120 BPM (a period of 500 ms), for the note the cursor expects and
  a beat not yet hit: played at the instant of the last beat it is an accepted hit
  classified perfect; played 100 ms after the beat it is an accepted hit in the outer
  band (fair, "Late"); played 250 ms after the beat it is outside the tolerance of
  200 ms and the state does not change at all: no feedback, no hit flag, the cursor
  where it was.
\<close>

theorem timing_classification:
  assumes "trainingState s = Training" and "transportBpm s = 120"
    and "jsAt (learnedPattern s) (int (currentPatternProgress s)) = Some n" and "n \<noteq> []"
    and "\<not> hasPlayedOnThisBeat s"
  shows "feedback (noteEffect s (Some n) (lastBeatTime s)) =
           Some \<lparr>msg = ''Perfect!'', color = ''text-emerald-400'', offset = Some 0,
                 hitType = Perfect, fbTimestamp = lastBeatTime s\<rparr>
       \<and> currentPatternProgress (noteEffect s (Some n) (lastBeatTime s)) = currentPatternProgress s + 1
       \<and> feedback (noteEffect s (Some n) (lastBeatTime s + 100)) =
           Some \<lparr>msg = ''Late'', color = ''text-amber-500'', offset = Some (2 / 5),
                 hitType = Fair, fbTimestamp = lastBeatTime s + 100\<rparr>
       \<and> currentPatternProgress (noteEffect s (Some n) (lastBeatTime s + 100)) = currentPatternProgress s + 1
       \<and> noteEffect s (Some n) (lastBeatTime s + 250) = s"
  using assms by (simp add: noteEffect_def trainingPhase_def timingFeedback_def)

theorem timing_classification_witness:
  "trainingState (beatTick (trainingStart\<lparr>transportBpm := 120\<rparr>) 1000) = Training
   \<and> transportBpm (beatTick (trainingStart\<lparr>transportBpm := 120\<rparr>) 1000) = 120
   \<and> jsAt (learnedPattern (beatTick (trainingStart\<lparr>transportBpm := 120\<rparr>) 1000))
        (int (currentPatternProgress (beatTick (trainingStart\<lparr>transportBpm := 120\<rparr>) 1000)))
       = Some ''E''
   \<and> \<not> hasPlayedOnThisBeat (beatTick (trainingStart\<lparr>transportBpm := 120\<rparr>) 1000)
   \<and> feedback (noteEffect (beatTick (trainingStart\<lparr>transportBpm := 120\<rparr>) 1000) (Some ''E'') 1100) =
           Some \<lparr>msg = ''Late'', color = ''text-amber-500'', offset = Some (2 / 5),
                 hitType = Fair, fbTimestamp = 1100\<rparr>
   \<and> noteEffect (beatTick (trainingStart\<lparr>transportBpm := 120\<rparr>) 1000) (Some ''E'') 1250
       = beatTick (trainingStart\<lparr>transportBpm := 120\<rparr>) 1000"
  using timing_classification [of "beatTick (trainingStart\<lparr>transportBpm := 120\<rparr>) 1000" "''E''"]
  by (simp add: trainingStart_eq beatTick_def jsAt_def)

section \<open>The trainer: tempo ramp and cursor in training\<close>

text \<open>
  The training phase adds one to the cursor and then tests it against 0, so the branch
  that counts a full loop and raises the tempo is never taken: no run of the training
  phase changes the streak, the BPM or the pattern.
\<close>

lemma trainingPhase_tempo:
  "bpm (trainingPhase s n t) = bpm s \<and> streak (trainingPhase s n t) = streak s
   \<and> learnedPattern (trainingPhase s n t) = learnedPattern s"
  by (simp add: trainingPhase_def Let_def)

text \<open>
  C1, at the failing input. The trainer enters training at 80 BPM with step 5 and
  target 140 and the lick is then played nine times, every note exactly on its tick.
  The BPM is still 80 and the streak still 0.
\<close>

theorem tempo_ramp_stuck:
  "bpm (runEvents trainingStart
      (onBeat 750 750 (lick @ lick @ lick @ lick @ lick @ lick @ lick @ lick @ lick))) = 80
   \<and> streak (runEvents trainingStart
      (onBeat 750 750 (lick @ lick @ lick @ lick @ lick @ lick @ lick @ lick @ lick))) = 0"
  by code_simp

text \<open>
  No handler raises the BPM: an event leaves it as it is or, at the start button, sets
  it to the start BPM.
\<close>

lemma phase_tempo:
  "bpm (learningPhase s n t) = bpm s \<and> startBpm (learningPhase s n t) = startBpm s
   \<and> targetBpm (learningPhase s n t) = targetBpm s"
  "bpm (lockedPhase s n t) = bpm s \<and> startBpm (lockedPhase s n t) = startBpm s
   \<and> targetBpm (lockedPhase s n t) = targetBpm s"
  "bpm (trainingPhase s n t) = bpm s \<and> startBpm (trainingPhase s n t) = startBpm s
   \<and> targetBpm (trainingPhase s n t) = targetBpm s"
  "bpm (beatTick s t) = bpm s \<and> startBpm (beatTick s t) = startBpm s
   \<and> targetBpm (beatTick s t) = targetBpm s"
  by (simp_all add: learningPhase_def lockedPhase_def lockedWrap_def confirmCycle_def
      ensureAudioInit_def trainingPhase_def beatTick_def Let_def split: option.splits)

lemma applyEvent_tempo:
  "(bpm (applyEvent s e) = bpm s \<or> bpm (applyEvent s e) = startBpm s)
   \<and> startBpm (applyEvent s e) = startBpm s \<and> targetBpm (applyEvent s e) = targetBpm s"
  by (cases e)
    (simp_all add: noteEffect_def phase_tempo startLearning_def stopAllAudio_def
      split: TrainingState.splits)

text \<open>
  The tempo cap. When the start BPM and the BPM are at most the target BPM, then after
  any list of events the BPM is at most the target BPM, and the target is unchanged.
\<close>

theorem bpm_never_above_target:
  assumes "startBpm s \<le> targetBpm s" and "bpm s \<le> targetBpm s"
  shows "bpm (runEvents s evs) \<le> targetBpm s \<and> targetBpm (runEvents s evs) = targetBpm s"
proof -
  have "bpm (runEvents s evs) \<le> targetBpm s \<and> startBpm (runEvents s evs) = startBpm s
      \<and> targetBpm (runEvents s evs) = targetBpm s"
    using assms
  proof (induction evs arbitrary: s)
    case Nil
    then show ?case by (simp add: runEvents_def)
  next
    case (Cons e evs)
    have st: "startBpm (applyEvent s e) \<le> targetBpm (applyEvent s e)"
      "bpm (applyEvent s e) \<le> targetBpm (applyEvent s e)"
      using applyEvent_tempo [of s e] Cons.prems by auto
    from Cons.IH [OF st] show ?case
      using applyEvent_tempo [of s e] by (simp add: runEvents_def)
  qed
  then show ?thesis by simp
qed

text \<open>A whole session from the fresh trainer: start, six licks, one lick on the beat.\<close>

theorem bpm_never_above_target_witness:
  "startBpm simpleTrainer \<le> targetBpm simpleTrainer \<and> bpm simpleTrainer \<le> targetBpm simpleTrainer
   \<and> bpm (runEvents simpleTrainer (Click # playNotes (lick @ lick @ lick @ lick @ lick @ lick) 0
        @ onBeat 750 750 lick)) \<le> 140"
  using bpm_never_above_target [of simpleTrainer
     "Click # playNotes (lick @ lick @ lick @ lick @ lick @ lick) 0 @ onBeat 750 750 lick"]
  by (simp add: simpleTrainer_def initialTrainer_def)

text \<open>
  The cursor in the locked phase. When the cursor is inside the pattern, it is inside
  the pattern after any note, and the note does not change the pattern.
\<close>

theorem lockedPhase_cursor:
  assumes "currentPatternProgress s < length (learnedPattern s)"
  shows "currentPatternProgress (lockedPhase s n t) < length (learnedPattern (lockedPhase s n t))
     \<and> learnedPattern (lockedPhase s n t) = learnedPattern s"
  using assms
  by (auto simp add: lockedPhase_def lockedWrap_def confirmCycle_def ensureAudioInit_def Let_def)

text \<open>In the locked state with the cursor at 1, for the note F and for a note not in the lick.\<close>

theorem lockedPhase_cursor_witness:
  "currentPatternProgress lockedMid < length (learnedPattern lockedMid)
   \<and> currentPatternProgress (lockedPhase lockedMid ''F'' 0) = 2
   \<and> currentPatternProgress (lockedPhase lockedMid ''A'' 0) = 1
   \<and> currentPatternProgress (lockedPhase lockedMid ''G'' 0) = 0
   \<and> learnedPattern (lockedPhase lockedMid ''G'' 0) = [''E'', ''F'', ''G'']"
proof -
  have eq: "currentPatternProgress lockedMid = 1" "learnedPattern lockedMid = [''E'', ''F'', ''G'']"
    "patternMatches lockedMid = 1"
    by code_simp+
  show ?thesis
    using lockedPhase_cursor [of lockedMid "''G''" 0] eq
    by (simp add: lockedPhase_def lockedWrap_def confirmCycle_def jsAt_def)
qed

text \<open>
  C2, at the failing input. In training, after the three notes of the lick played on
  their ticks, the cursor is 3, the length of the pattern: it has not wrapped to 0.
\<close>

theorem training_cursor_overrun:
  "currentPatternProgress (runEvents trainingStart (onBeat 750 750 lick)) = 3
   \<and> learnedPattern (runEvents trainingStart (onBeat 750 750 lick)) = [''E'', ''F'', ''G'']
   \<and> trainingState (runEvents trainingStart (onBeat 750 750 lick)) = Training"
  by code_simp

section \<open>The trainer: reset\<close>

text \<open>
  The streak and the BPM in a session. Outside the dead branch of the training phase
  the streak is written only by the tick and by the start button, and both write 0; so
  a trainer that has streak 0 and its BPM at the start value keeps both through every
  event.
\<close>

lemma phase_streak:
  "streak (learningPhase s n t) = streak s"
  "streak (lockedPhase s n t) = streak s"
  "streak (beatTick s t) = streak s \<or> streak (beatTick s t) = 0"
  by (simp_all add: learningPhase_def lockedPhase_def lockedWrap_def confirmCycle_def
      ensureAudioInit_def beatTick_def Let_def split: option.splits)

lemma applyEvent_fresh:
  assumes "streak s = 0" and "bpm s = startBpm s"
  shows "streak (applyEvent s e) = 0 \<and> bpm (applyEvent s e) = startBpm (applyEvent s e)"
proof -
  have b: "bpm (applyEvent s e) = startBpm (applyEvent s e)"
    using applyEvent_tempo [of s e] assms(2) by auto
  have "streak (applyEvent s e) = 0"
    using assms(1) phase_streak(3) [of s]
    by (cases e)
      (auto simp add: noteEffect_def phase_streak(1,2) trainingPhase_tempo startLearning_def
        stopAllAudio_def split: TrainingState.splits option.splits)
  then show ?thesis using b by simp
qed

lemma session_fresh:
  assumes "streak s = 0" and "bpm s = startBpm s"
  shows "streak (runEvents s evs) = 0 \<and> bpm (runEvents s evs) = startBpm (runEvents s evs)"
  using assms
proof (induction evs arbitrary: s)
  case Nil
  then show ?case by (simp add: runEvents_def)
next
  case (Cons e evs)
  have "streak (applyEvent s e) = 0" "bpm (applyEvent s e) = startBpm (applyEvent s e)"
    using applyEvent_fresh [OF Cons.prems] by simp_all
  then have "streak (runEvents (applyEvent s e) evs) = 0
      \<and> bpm (runEvents (applyEvent s e) evs) = startBpm (runEvents (applyEvent s e) evs)"
    by (rule Cons.IH)
  then show ?case by (simp add: runEvents_def)
qed

text \<open>
  After any session of a freshly mounted trainer, the reset gives the idle state with
  no learned pattern, streak 0 and the BPM at the start value.
\<close>

lemma reset_session:
  "trainingState (stopAllAudio (runEvents initialTrainer evs)) = Idle
   \<and> learnedPattern (stopAllAudio (runEvents initialTrainer evs)) = []
   \<and> streak (stopAllAudio (runEvents initialTrainer evs)) = 0
   \<and> bpm (stopAllAudio (runEvents initialTrainer evs))
       = startBpm (stopAllAudio (runEvents initialTrainer evs))"
  using session_fresh [of initialTrainer evs]
  by (simp add: stopAllAudio_def initialTrainer_def)

text \<open>
  C3, at the failing input. In the locked state reached by the start button, twice the
  lick and one more E, the cursor is 1. The reset button returns to idle with the
  pattern cleared, the streak 0 and the BPM at the start value, but the cursor is still
  1, and still 1 after the start button that follows: neither \<open>stopAllAudio\<close> nor
  \<open>startLearning\<close> writes \<open>currentPatternProgressRef\<close>. The cursor a session leaves
  behind is the cursor of the next one: after one lick in training (cursor 3), a reset
  and a new start, the lick is found again, and six more times through it the trainer
  is still locked with the counter at 1 and the cursor at 3.
\<close>

theorem reset_leaves_cursor:
  "trainingState lockedMid = Locked
   \<and> currentPatternProgress lockedMid = 1
   \<and> trainingState (applyEvent lockedMid Click) = Idle
   \<and> learnedPattern (applyEvent lockedMid Click) = []
   \<and> streak (applyEvent lockedMid Click) = 0
   \<and> bpm (applyEvent lockedMid Click) = startBpm (applyEvent lockedMid Click)
   \<and> currentPatternProgress (applyEvent lockedMid Click) = 1
   \<and> currentPatternProgress (applyEvent (applyEvent lockedMid Click) Click) = 1
   \<and> trainingState (runEvents trainingStart
        (onBeat 750 750 lick @ [Click, Click]
          @ playNotes (lick @ lick @ lick @ lick @ lick @ lick @ lick @ lick) 0)) = Locked
   \<and> patternMatches (runEvents trainingStart
        (onBeat 750 750 lick @ [Click, Click]
          @ playNotes (lick @ lick @ lick @ lick @ lick @ lick @ lick @ lick) 0)) = 1
   \<and> currentPatternProgress (runEvents trainingStart
        (onBeat 750 750 lick @ [Click, Click]
          @ playNotes (lick @ lick @ lick @ lick @ lick @ lick @ lick @ lick) 0)) = 3"
  by code_simp

section \<open>The stabilizer: when a note event is made\<close>

lemma countEvents_held:
  assumes "noteLabel p = label" and "frequency p = freq"
  shows "countEvents (Some p) (map (\<lambda>t. (label, freq, t)) ts) = 0"
  using assms by (induction ts) (simp_all add: setCurrentNote_def)

lemma countEvents_alternating:
  assumes "a \<noteq> b" and "prev = None \<or> (\<exists>p. prev = Some p \<and> noteLabel p \<noteq> a)"
  shows "countEvents prev (alternating (a, fa) (b, fb) ts) = length ts"
  using assms
proof (induction ts arbitrary: prev a b fa fb)
  case Nil
  show ?case by simp
next
  case (Cons t ts)
  define nxt where "nxt = setCurrentNote prev a fa t"
  have new: "nxt = Some \<lparr>noteLabel = a, frequency = fa, confidence = 0.9, timestamp = t\<rparr>"
    using Cons.prems(2) by (auto simp add: nxt_def setCurrentNote_def)
  have changed: "nxt \<noteq> prev"
    using Cons.prems(2) new by auto
  have "countEvents nxt (alternating (b, fb) (a, fa) ts) = length ts"
  proof (rule Cons.IH)
    show "b \<noteq> a" using Cons.prems(1) by simp
    show "nxt = None \<or> (\<exists>p. nxt = Some p \<and> noteLabel p \<noteq> b)"
      using new Cons.prems(1) by simp
  qed
  then show ?case using changed by (simp add: nxt_def [symmetric])
qed

text \<open>
  C6. With a previous value, \<open>setCurrentNote\<close> makes a new value (a note event) if and
  only if the candidate's label (name and octave) differs from the previous one or its
  frequency is at least 1 Hz away from the previous one; with no previous value it
  always makes one. So the same label and frequency fed any number of times (at least
  once) from the start gives exactly one event, and a stream that alternates between
  two different labels gives one event per frame.
\<close>

theorem debounce_rule:
  "(setCurrentNote (Some p) label freq now \<noteq> Some p
      \<longleftrightarrow> (noteLabel p \<noteq> label \<or> \<bar>frequency p - freq\<bar> \<ge> 1))
   \<and> setCurrentNote None label freq now \<noteq> None
   \<and> (ts \<noteq> [] \<longrightarrow> countEvents None (map (\<lambda>t. (label, freq, t)) ts) = 1)
   \<and> (a \<noteq> b \<longrightarrow> countEvents None (alternating (a, fa) (b, fb) ts) = length ts)"
proof -
  have rule: "setCurrentNote (Some p) label freq now \<noteq> Some p
      \<longleftrightarrow> (noteLabel p \<noteq> label \<or> \<bar>frequency p - freq\<bar> \<ge> 1)"
    by (auto simp add: setCurrentNote_def)
  have first: "setCurrentNote None label freq now \<noteq> None"
    by (simp add: setCurrentNote_def)
  have same: "ts \<noteq> [] \<longrightarrow> countEvents None (map (\<lambda>t. (label, freq, t)) ts) = 1"
  proof
    assume "ts \<noteq> []"
    then obtain t rest where ts: "ts = t # rest" by (cases ts) auto
    have "countEvents (Some \<lparr>noteLabel = label, frequency = freq, confidence = 0.9, timestamp = t\<rparr>)
        (map (\<lambda>t. (label, freq, t)) rest) = 0"
      by (rule countEvents_held) simp_all
    then show "countEvents None (map (\<lambda>t. (label, freq, t)) ts) = 1"
      by (simp add: ts setCurrentNote_def)
  qed
  have alt: "a \<noteq> b \<longrightarrow> countEvents None (alternating (a, fa) (b, fb) ts) = length ts"
    using countEvents_alternating [of a b None fa fb ts] by simp
  show ?thesis using rule first same alt by blast
qed

text \<open>Three frames of A4 at 440 Hz, and three frames alternating A4 and B4.\<close>

theorem debounce_rule_witness:
  "[0, 16, 33 :: int] \<noteq> [] \<and> ''A4'' \<noteq> ''B4''
   \<and> countEvents None (map (\<lambda>t. (''A4'', 440, t)) [0, 16, 33]) = 1
   \<and> countEvents None (alternating (''A4'', 440) (''B4'', 494) [0, 16, 33]) = 3"
  using debounce_rule [of _ "''A4''" 440 _ "[0, 16, 33]" "''A4''" "''B4''" 440 494]
  by simp

section \<open>The autocorrelator: the lag is positive\<close>

text \<open>
  The first dip: the loop stops at or after its start, at a place where the buffer does
  not go down any more (or at \<open>maxOffset\<close>), and the buffer goes strictly down all the
  way to it.
\<close>

lemma firstDip_props:
  "d0 \<le> firstDip c m d0
   \<and> \<not> (c (firstDip c m d0) > c (firstDip c m d0 + 1) \<and> firstDip c m d0 < m)
   \<and> (\<forall>j. d0 \<le> j \<and> j < firstDip c m d0 \<longrightarrow> c j > c (j + 1))"
proof (induction c m d0 rule: firstDip.induct)
  case (1 c m d)
  show ?case
  proof (cases "c d > c (d + 1) \<and> d < m")
    case True
    then have eq: "firstDip c m d = firstDip c m (d + 1)"
      by (subst firstDip.simps) simp
    from "1.IH" [OF True] have ih:
      "d + 1 \<le> firstDip c m (d + 1)"
      "\<not> (c (firstDip c m (d + 1)) > c (firstDip c m (d + 1) + 1) \<and> firstDip c m (d + 1) < m)"
      "\<forall>j. d + 1 \<le> j \<and> j < firstDip c m (d + 1) \<longrightarrow> c j > c (j + 1)"
      by auto
    have "\<forall>j. d \<le> j \<and> j < firstDip c m (d + 1) \<longrightarrow> c j > c (j + 1)"
    proof (intro allI impI)
      fix j assume j: "d \<le> j \<and> j < firstDip c m (d + 1)"
      show "c j > c (j + 1)"
      proof (cases "j = d")
        case True
        then show ?thesis using \<open>c d > c (d + 1) \<and> d < m\<close> by simp
      next
        case False
        then have "d + 1 \<le> j" using j by simp
        then show ?thesis using ih(3) j by simp
      qed
    qed
    then show ?thesis using ih(1,2) by (simp add: eq)
  next
    case False
    then have eq: "firstDip c m d = d"
      by (subst firstDip.simps) auto
    show ?thesis using False by (simp add: eq)
  qed
qed

lemma highestPeak_Suc:
  "d \<le> m \<Longrightarrow> highestPeak c d (Suc m) = peakStep c (highestPeak c d m) m"
  by (simp add: highestPeak_def)

lemma highestPeak_empty: "m \<le> d \<Longrightarrow> highestPeak c d m = (-1, -1)"
  by (simp add: highestPeak_def)

lemma peakInv_step:
  assumes "peakInv c d m acc" and "d \<le> m"
  shows "peakInv c d (Suc m) (peakStep c acc m)"
proof (cases "c m > fst acc")
  case True
  then have new: "peakStep c acc m = (c m, int m)" by (simp add: peakStep_def)
  have below: "\<forall>i. d \<le> i \<and> i < m \<longrightarrow> c i < c m"
    using assms(1) True unfolding peakInv_def by fastforce
  have "\<forall>i. d \<le> i \<and> i < Suc m \<longrightarrow> c i \<le> c m"
  proof (intro allI impI)
    fix i assume "d \<le> i \<and> i < Suc m"
    then have "i = m \<or> (d \<le> i \<and> i < m)" by auto
    then show "c i \<le> c m" using below by auto
  qed
  then show ?thesis using below assms(2) by (simp add: new peakInv_def)
next
  case False
  then have old: "peakStep c acc m = acc" by (simp add: peakStep_def)
  have le: "c m \<le> fst acc" using False by simp
  from assms(1) consider
      (none) "snd acc = -1" "fst acc = -1" "\<forall>i. d \<le> i \<and> i < m \<longrightarrow> c i \<le> -1"
    | (some) "int d \<le> snd acc" "snd acc < int m" "fst acc = c (nat (snd acc))"
        "\<forall>i. d \<le> i \<and> i < m \<longrightarrow> c i \<le> fst acc"
        "\<forall>i. d \<le> i \<and> i < nat (snd acc) \<longrightarrow> c i < fst acc"
    unfolding peakInv_def by blast
  then show ?thesis
  proof cases
    case none
    have "\<forall>i. d \<le> i \<and> i < Suc m \<longrightarrow> c i \<le> -1"
    proof (intro allI impI)
      fix i assume "d \<le> i \<and> i < Suc m"
      then have "i = m \<or> (d \<le> i \<and> i < m)" by auto
      then show "c i \<le> -1" using none(2,3) le by auto
    qed
    then show ?thesis using none(1,2) by (simp add: old peakInv_def)
  next
    case some
    have "\<forall>i. d \<le> i \<and> i < Suc m \<longrightarrow> c i \<le> fst acc"
    proof (intro allI impI)
      fix i assume "d \<le> i \<and> i < Suc m"
      then have "i = m \<or> (d \<le> i \<and> i < m)" by auto
      then show "c i \<le> fst acc" using some(4) le by auto
    qed
    then show ?thesis using some by (simp add: old peakInv_def)
  qed
qed

lemma highestPeak_inv: "peakInv c d m (highestPeak c d m)"
proof (induction m)
  case 0
  show ?case by (simp add: highestPeak_empty peakInv_def)
next
  case (Suc m)
  show ?case
  proof (cases "d \<le> m")
    case False
    then show ?thesis by (simp add: highestPeak_empty peakInv_def)
  next
    case True
    then show ?thesis using peakInv_step [OF Suc.IH True] by (simp add: highestPeak_Suc)
  qed
qed

text \<open>
  Around a peak the parabola's vertex is at most half a sample to the left, so a lag of
  1 or more stays at or above one half after the interpolation. At the dip itself the
  neighbour on the left is higher and the one on the right equal, and the vertex is
  half a sample to the right.
\<close>

lemma parabola_shift:
  fixes a b :: real
  assumes "a < 0" and "a \<le> b"
  shows "b / (2 * a) \<le> 1 / 2"
proof -
  have "2 * a < 0" using assms(1) by simp
  then have "(b / (2 * a) \<le> 1 / 2) = (1 / 2 * (2 * a) \<le> b)"
    by (rule neg_divide_le_eq)
  then show ?thesis using assms(2) by simp
qed

lemma finalLag_positive:
  assumes "1 \<le> peakLag buf"
  shows "1 / 2 \<le> finalLag buf"
proof -
  define c where "c = correlation buf"
  define m where "m = length buf div 2"
  define d where "d = firstDip c m 0"
  define p where "p = peakLag buf"
  have pk: "p = snd (highestPeak c d m)"
    by (simp add: p_def peakLag_def c_def m_def d_def Let_def)
  have inv: "peakInv c d m (highestPeak c d m)" by (rule highestPeak_inv)
  have p1: "1 \<le> p" using assms by (simp add: p_def)
  then have range: "int d \<le> p" "p < int m"
    and top: "\<forall>i. d \<le> i \<and> i < m \<longrightarrow> c i \<le> c (nat p)"
    and first: "\<forall>i. d \<le> i \<and> i < nat p \<longrightarrow> c i < c (nat p)"
    using inv unfolding peakInv_def pk by auto
  have dip: "\<not> (c d > c (d + 1) \<and> d < m)" "\<forall>j. 0 \<le> j \<and> j < d \<longrightarrow> c j > c (j + 1)"
    using firstDip_props [of 0 c m] by (simp_all add: d_def)
  have fl: "finalLag buf = refinePeak c m p"
    by (simp add: finalLag_def c_def m_def p_def)
  show ?thesis
  proof (cases "p < int m - 1")
    case False
    then have "refinePeak c m p = real_of_int p" by (simp add: refinePeak_def)
    then show ?thesis using p1 by (simp add: fl)
  next
    case True
    define x0 where "x0 = c (nat (p - 1))"
    define x1 where "x1 = c (nat p)"
    define x2 where "x2 = c (nat (p + 1))"
    define a where "a = (x0 + x2 - 2 * x1) / 2"
    define b where "b = (x2 - x0) / 2"
    have rp: "refinePeak c m p = (if a \<noteq> 0 then real_of_int p - b / (2 * a) else real_of_int p)"
      using True p1 by (simp add: refinePeak_def Let_def a_def b_def x0_def x1_def x2_def)
    have x21: "x2 \<le> x1"
    proof -
      have "d \<le> nat (p + 1) \<and> nat (p + 1) < m" using range True p1 by linarith
      then show ?thesis using top by (simp add: x2_def x1_def)
    qed
    have shift: "a \<noteq> 0 \<Longrightarrow> b / (2 * a) \<le> 1 / 2"
    proof (cases "int d < p")
      case True
      then have "d \<le> nat (p - 1) \<and> nat (p - 1) < nat p" using p1 by linarith
      then have "x0 < x1" using first by (simp add: x0_def x1_def)
      then have "a < 0" "a \<le> b" using x21 by (simp_all add: a_def b_def)
      then show ?thesis by (rule parabola_shift)
    next
      case False
      then have pd: "p = int d" using range(1) by simp
      then have d1: "1 \<le> d" "d < m" using p1 range(2) by simp_all
      have "c (d - 1) > c (d - 1 + 1)" using dip(2) [rule_format, of "d - 1"] d1(1) by simp
      then have x01: "x0 > x1" using d1(1) by (simp add: x0_def x1_def pd nat_diff_distrib)
      have "\<not> c d > c (d + 1)" using dip(1) d1(2) by simp
      then have "x1 \<le> x2" by (simp add: x1_def x2_def pd nat_add_distrib)
      then have "x2 = x1" using x21 by simp
      then have "a = (x0 - x1) / 2" "b = - a" by (simp_all add: a_def b_def field_simps)
      then have "a > 0" "b / (2 * a) = - 1 / 2" using x01 by simp_all
      then show ?thesis by simp
    qed
    show ?thesis
    proof (cases "a = 0")
      case True
      then show ?thesis using p1 by (simp add: fl rp)
    next
      case False
      have "real_of_int p \<ge> 1" using p1 by simp
      then show ?thesis using shift [OF False] False by (simp add: fl rp)
    qed
  qed
qed

lemma peakLag_range: "peakLag buf = -1 \<or> 0 \<le> peakLag buf"
  using highestPeak_inv [of "correlation buf" "firstDip (correlation buf) (length buf div 2) 0" "length buf div 2"]
  unfolding peakInv_def peakLag_def Let_def by linarith

text \<open>
  C8. For every frame of even length up to 4092 samples (the analyser's have 2048): if
  the lag the two loops select, or the lag after the parabolic interpolation, is zero
  or negative, \<open>autoCorrelate\<close> returns the sentinel \<open>-1\<close>. Every other result is the
  sample rate divided by a lag of at least one half. The caller does nothing with the
  sentinel, nor with a frequency that is not strictly between 20 and 4000 Hz.
\<close>

theorem nonpositive_lag_no_pitch:
  assumes "even (length buf)" and "length buf \<le> 4092"
  shows "(peakLag buf \<le> 0 \<or> finalLag buf \<le> 0 \<longrightarrow> autoCorrelate buf sampleRate = -1)
       \<and> (autoCorrelate buf sampleRate = -1
          \<or> (1 / 2 \<le> finalLag buf \<and> autoCorrelate buf sampleRate = sampleRate / finalLag buf))
       \<and> detectPitchUpdate st (-1) now = st
       \<and> (f \<le> 20 \<or> 4000 \<le> f \<longrightarrow> detectPitchUpdate st f now = st)"
proof -
  have lag: "peakLag buf \<le> 0 \<or> finalLag buf \<le> 0 \<Longrightarrow> peakLag buf = -1 \<or> peakLag buf = 0"
    using finalLag_positive [of buf] peakLag_range [of buf] by linarith
  have a: "peakLag buf \<le> 0 \<or> finalLag buf \<le> 0 \<longrightarrow> autoCorrelate buf sampleRate = -1"
    using lag by (auto simp add: autoCorrelate_def Let_def)
  have b: "autoCorrelate buf sampleRate = -1
          \<or> (1 / 2 \<le> finalLag buf \<and> autoCorrelate buf sampleRate = sampleRate / finalLag buf)"
    using finalLag_positive [of buf] peakLag_range [of buf]
    by (auto simp add: autoCorrelate_def Let_def)
  have c: "detectPitchUpdate st (-1) now = st"
    "f \<le> 20 \<or> 4000 \<le> f \<longrightarrow> detectPitchUpdate st f now = st"
    by (auto simp add: detectPitchUpdate_def)
  show ?thesis using a b c by blast
qed

text \<open>A constant frame: the highest peak is at lag 0.\<close>

lemma peakLag_dc: "peakLag [1, 1, 1, 1] = 0"
  by code_simp

theorem nonpositive_lag_no_pitch_witness:
  "even (length [1, 1, 1, 1 :: real]) \<and> length [1, 1, 1, 1 :: real] \<le> 4092
   \<and> peakLag [1, 1, 1, 1] = 0
   \<and> \<not> sqrt ((\<Sum>x\<leftarrow>[1, 1, 1, 1 :: real]. x * x) / real (length [1, 1, 1, 1 :: real])) < 0.005
   \<and> autoCorrelate [1, 1, 1, 1] 44100 = -1"
  using nonpositive_lag_no_pitch [of "[1, 1, 1, 1]" 44100] peakLag_dc by simp

section \<open>The note mapper\<close>

lemma log2_64: "ln (55 / 8 / 440 :: real) / ln 2 = - 6"
proof -
  have "ln (55 / 8 / 440 :: real) = ln (1 / 2 ^ 6)" by simp
  also have "\<dots> = - ln ((2::real) ^ 6)" by (subst ln_div) simp_all
  also have "\<dots> = - (6 * ln 2)" by (subst ln_realpow) simp_all
  finally show ?thesis by simp
qed

lemma semitone_above_gate:
  assumes "20 < (f::real)"
  shows "0 \<le> round (12 * (ln (f / 440) / ln 2)) + 69"
proof -
  have "ln (1 / 2 ^ 5 :: real) = - ln ((2::real) ^ 5)" by (subst ln_div) simp_all
  also have "\<dots> = - (5 * ln 2)" by (subst ln_realpow) simp_all
  finally have "ln (1 / 2 ^ 5 :: real) = - (5 * ln 2)" .
  moreover have "ln (1 / 2 ^ 5 :: real) \<le> ln (f / 440)"
    using assms by (subst ln_le_cancel_iff) simp_all
  ultimately have "- (5 * ln 2) \<le> ln (f / 440)" by simp
  then have "- 5 \<le> ln (f / 440) / ln 2"
    by (simp add: le_divide_eq)
  then have "real_of_int (- 60) \<le> 12 * (ln (f / 440) / ln 2)" by simp
  then have "round (real_of_int (- 60)) \<le> round (12 * (ln (f / 440) / ln 2))"
    by (rule round_mono)
  then show ?thesis by (simp only: round_of_int)
qed

lemma getNote_positive:
  assumes "0 < f" and "round (12 * (ln (f / 440) / ln 2)) + 69 = i"
  shows "getNoteFromFrequency f =
    \<lparr>pitchName = jsAt NOTE_NAMES (jsRem i 12), octave = Num (i div 12 - 1), noteNum = Num i\<rparr>"
  using assms by (simp add: getNoteFromFrequency_def Let_def)

text \<open>
  C9, as the code has it. \<open>getNoteFromFrequency\<close> rejects nothing. Below 0 it returns
  an object with no name and \<open>NaN\<close> for the octave and the index; at 0 one with no name
  and \<open>-Infinity\<close>. For a positive frequency whose semitone index
  \<open>round (12 * log2 (f / 440)) + 69\<close> is not negative, it returns the name
  \<open>NOTE_NAMES[index mod 12]\<close>, the octave \<open>floor (index / 12) - 1\<close> and the index; every
  frequency above 20 Hz, the caller's gate, has such an index.
\<close>

theorem getNoteFromFrequency_total:
  "(f < 0 \<longrightarrow> getNoteFromFrequency f = \<lparr>pitchName = None, octave = NaN, noteNum = NaN\<rparr>)
   \<and> (f = 0 \<longrightarrow>
        getNoteFromFrequency f = \<lparr>pitchName = None, octave = NegInfinity, noteNum = NegInfinity\<rparr>)
   \<and> (0 < f \<and> 0 \<le> round (12 * log 2 (f / 440)) + 69 \<longrightarrow>
        getNoteFromFrequency f =
          \<lparr>pitchName = Some (NOTE_NAMES ! nat ((round (12 * log 2 (f / 440)) + 69) mod 12)),
           octave = Num ((round (12 * log 2 (f / 440)) + 69) div 12 - 1),
           noteNum = Num (round (12 * log 2 (f / 440)) + 69)\<rparr>)
   \<and> (20 < f \<longrightarrow> 0 \<le> round (12 * log 2 (f / 440)) + 69)"
proof -
  have neg: "f < 0 \<longrightarrow> getNoteFromFrequency f = \<lparr>pitchName = None, octave = NaN, noteNum = NaN\<rparr>"
    by (simp add: getNoteFromFrequency_def)
  have zero: "f = 0 \<longrightarrow>
        getNoteFromFrequency f = \<lparr>pitchName = None, octave = NegInfinity, noteNum = NegInfinity\<rparr>"
    by (simp add: getNoteFromFrequency_def)
  have nm: "0 \<le> i \<Longrightarrow> jsAt NOTE_NAMES (jsRem i 12) = Some (NOTE_NAMES ! nat (i mod 12))" for i :: int
    by (cases "i = 0") (simp_all add: jsAt_def jsRem_def NOTE_NAMES_def)
  have pos: "0 < f \<and> 0 \<le> round (12 * log 2 (f / 440)) + 69 \<longrightarrow>
        getNoteFromFrequency f =
          \<lparr>pitchName = Some (NOTE_NAMES ! nat ((round (12 * log 2 (f / 440)) + 69) mod 12)),
           octave = Num ((round (12 * log 2 (f / 440)) + 69) div 12 - 1),
           noteNum = Num (round (12 * log 2 (f / 440)) + 69)\<rparr>"
    using nm [of "round (12 * log 2 (f / 440)) + 69"]
    by (simp add: getNoteFromFrequency_def Let_def log_def)
  have gate: "20 < f \<longrightarrow> 0 \<le> round (12 * log 2 (f / 440)) + 69"
    using semitone_above_gate [of f] by (simp add: log_def)
  show ?thesis using neg zero pos gate by blast
qed

text \<open>At -1 Hz, at 0 Hz and at 440 Hz (A, octave 4, index 69).\<close>

theorem getNoteFromFrequency_total_witness:
  "getNoteFromFrequency (- 1) = \<lparr>pitchName = None, octave = NaN, noteNum = NaN\<rparr>
   \<and> getNoteFromFrequency 0 = \<lparr>pitchName = None, octave = NegInfinity, noteNum = NegInfinity\<rparr>
   \<and> 0 \<le> round (12 * log 2 (440 / 440)) + 69
   \<and> getNoteFromFrequency 440 = \<lparr>pitchName = Some ''A'', octave = Num 4, noteNum = Num 69\<rparr>"
  using getNoteFromFrequency_total [of "- 1"] getNoteFromFrequency_total [of 0]
    getNoteFromFrequency_total [of 440]
  by (simp add: NOTE_NAMES_def)

text \<open>
  Two inputs against rejection below zero and a name above it: at 0 Hz an object is
  returned, and at 6.875 Hz (440 / 64, six octaves below A4, index -3) a positive
  frequency gets no name, the remainder \<open>-3 % 12\<close> being \<open>-3\<close>.
\<close>

theorem note_mapper_counterexample:
  "getNoteFromFrequency 0 = \<lparr>pitchName = None, octave = NegInfinity, noteNum = NegInfinity\<rparr>
   \<and> getNoteFromFrequency (55 / 8) = \<lparr>pitchName = None, octave = Num (- 2), noteNum = Num (- 3)\<rparr>"
proof -
  have r: "round (12 * (ln (55 / 8 / 440 :: real) / ln 2)) + 69 = - 3"
    by (simp only: log2_64) simp
  have "getNoteFromFrequency (55 / 8) =
      \<lparr>pitchName = jsAt NOTE_NAMES (jsRem (- 3) 12), octave = Num (- 3 div 12 - 1), noteNum = Num (- 3)\<rparr>"
    by (rule getNote_positive [OF _ r]) simp
  then show ?thesis by (simp add: getNoteFromFrequency_def jsAt_def jsRem_def)
qed

section \<open>The chord matcher depends on the set of pitch classes only\<close>

lemma set_uniq: "set (uniq xs) = set xs"
  by (induction xs) auto

lemma distinct_uniq: "distinct (uniq xs)"
  by (induction xs) (auto simp: set_uniq)

lemma sort_uniq: "sort (uniq (xs::int list)) = sorted_list_of_set (set xs)"
  by (metis set_uniq sorted_list_of_set_sort_remdups distinct_uniq remdups_id_iff_distinct)

lemma tryRoots_single: "length L \<le> 1 \<Longrightarrow> tryRoots L L = None"
proof (cases L)
  case Nil
  then show ?thesis by simp
next
  case (Cons r rest)
  assume "length L \<le> 1"
  then have "L = [r]" using Cons by simp
  then show ?thesis
    by (simp add: relativeIntervals_def jsRem_def isMatch_def CHORD_TYPES_def)
qed

lemma identifyChord_set:
  "identifyChord ns =
     tryRoots (sorted_list_of_set (set (map noteIndex ns))) (sorted_list_of_set (set (map noteIndex ns)))"
proof (cases "length ns < 2")
  case False
  then show ?thesis by (simp add: identifyChord_def sort_uniq)
next
  case True
  have "length (sorted_list_of_set (set (map noteIndex ns))) = card (set (map noteIndex ns))"
    by simp
  also have "\<dots> \<le> length (map noteIndex ns)" by (rule card_length)
  finally have "length (sorted_list_of_set (set (map noteIndex ns))) \<le> 1" using True by simp
  then show ?thesis using True by (simp add: identifyChord_def tryRoots_single)
qed

text \<open>
  A digit after a name without digits, and whatever follows it, is stripped: an octave
  suffix does not change the index of a note.
\<close>

lemma stripOctave_suffix:
  assumes "\<forall>c \<in> set n. \<not> isDigit c" and "isDigit d"
  shows "stripOctave (n @ d # rest) = n"
  using assms by (simp add: stripOctave_def takeWhile_append2) 

text \<open>
  C10. The result of \<open>identifyChord\<close> depends only on the set of the indices of its
  notes after the octave digits are stripped: two lists with the same set of indices,
  whatever their order, their repetitions and their octave suffixes, get the same
  result, a chord or none.
\<close>

theorem identifyChord_pitch_classes:
  assumes "set (map noteIndex xs) = set (map noteIndex ys)"
  shows "identifyChord xs = identifyChord ys"
  by (simp only: identifyChord_set assms)

text \<open>The notes G3, E2, C0, E2, G7 and the notes G, E, C: the same chord, C major.\<close>

theorem identifyChord_pitch_classes_witness:
  "set (map noteIndex [''G3'', ''E2'', ''C0'', ''E2'', ''G7'']) = set (map noteIndex [''G'', ''E'', ''C''])
   \<and> identifyChord [''G3'', ''E2'', ''C0'', ''E2'', ''G7''] = identifyChord [''G'', ''E'', ''C'']
   \<and> identifyChord [''G'', ''E'', ''C''] =
     Some \<lparr>chordName = ''C'', root = Some ''C'', chordType = ''Major'',
           chordNotes = [Some ''C'', Some ''E'', Some ''G'']\<rparr>"
proof -
  have s: "set (map noteIndex [''G3'', ''E2'', ''C0'', ''E2'', ''G7'']) = set (map noteIndex [''G'', ''E'', ''C''])"
    by (auto simp add: noteIndex_def stripOctave_def isDigit_def NOTE_NAMES_def)
  show ?thesis
    using identifyChord_pitch_classes [OF s] s by (simp add: chord_eval)
qed

end
